theory Spec2Isabelle
  imports Complex_Main "HOL-Library.Word"
begin

unbundle bit_operations_syntax

section \<open>Data model\<close>

text \<open>
  Python \<open>bytes\<close> are lists of 8-bit words.  Python \<open>int\<close> is unbounded and modelled by
  \<open>int\<close>.  A Python \<open>str\<close> whose content may be arbitrary Unicode (the coinbase timestamp)
  is a list of code points; the strings the program treats as ASCII (algorithm names, hex
  text) are \<open>string\<close>.
\<close>

type_synonym byte = "8 word"
type_synonym bytes = "byte list"
type_synonym pystr = "nat list"

text \<open>
  Every way the program can stop without a result: \<open>struct.error\<close> of \<open>struct.pack\<close>,
  \<open>FieldError\<close> of the Construct library, \<open>ValueError\<close> of \<open>bytes.fromhex\<close> and
  \<open>int(_, 16)\<close>, \<open>UnicodeEncodeError\<close> of \<open>str.encode\<close>, and \<open>sys.exit(message)\<close>.
\<close>

datatype error =
    StructError
  | FieldError
  | ValueError
  | UnicodeEncodeError
  | SystemExit string

definition and_then :: "error + 'a \<Rightarrow> ('a \<Rightarrow> error + 'b) \<Rightarrow> error + 'b" where
  "and_then r f = (case r of Inl e \<Rightarrow> Inl e | Inr x \<Rightarrow> f x)"

subsection \<open>\<open>struct.pack\<close>\<close>

text \<open>
  \<open>le_bytes n v\<close> are the \<open>n\<close> low bytes of \<open>v\<close>, least significant first; on a negative
  \<open>v\<close> this is two's complement, since \<open>div\<close> rounds down.
\<close>

fun le_bytes :: "nat \<Rightarrow> int \<Rightarrow> bytes" where
  "le_bytes 0 v = []"
| "le_bytes (Suc n) v = word_of_int v # le_bytes n (v div 256)"

text \<open>\<open>struct.pack("<I", v)\<close>: raises \<open>struct.error\<close> unless \<open>0 <= v < 2**32\<close>.\<close>

definition pack_I :: "int \<Rightarrow> error + bytes" where
  "pack_I v = (if 0 \<le> v \<and> v < 2 ^ 32 then Inr (le_bytes 4 v) else Inl StructError)"

text \<open>\<open>struct.pack("<q", v)\<close>: raises \<open>struct.error\<close> unless \<open>-2**63 <= v < 2**63\<close>.\<close>

definition pack_q :: "int \<Rightarrow> error + bytes" where
  "pack_q v = (if - (2 ^ 63) \<le> v \<and> v < 2 ^ 63 then Inr (le_bytes 8 v) else Inl StructError)"

text \<open>\<open>struct.pack("<qqqq", a, b, c, d)\<close>.\<close>

definition pack_qqqq :: "int \<Rightarrow> int \<Rightarrow> int \<Rightarrow> int \<Rightarrow> error + bytes" where
  "pack_qqqq a b c d =
     and_then (pack_q a) (\<lambda>x. and_then (pack_q b) (\<lambda>y. and_then (pack_q c) (\<lambda>z.
     and_then (pack_q d) (\<lambda>w. Inr (x @ y @ z @ w)))))"

subsection \<open>The Construct 2.x fields the program uses\<close>

text \<open>
  Building a \<open>Struct\<close> writes its fields in order and stops at the first field that
  refuses its value.  \<open>Bytes(name, n)\<close> and \<open>StaticField(name, n)\<close> write exactly \<open>n\<close>
  bytes and refuse any other length; \<open>Byte\<close> writes one unsigned byte and refuses a value
  outside \<open>0..255\<close>; \<open>UBInt32\<close> writes four bytes, most significant first, and refuses a
  value outside \<open>0..2**32-1\<close>.
\<close>

definition build_Bytes :: "nat \<Rightarrow> bytes \<Rightarrow> error + bytes" where
  "build_Bytes n v = (if length v = n then Inr v else Inl FieldError)"

definition build_Byte :: "int \<Rightarrow> error + bytes" where
  "build_Byte v = (if 0 \<le> v \<and> v \<le> 255 then Inr [word_of_int v] else Inl FieldError)"

definition build_UBInt32 :: "int \<Rightarrow> error + bytes" where
  "build_UBInt32 v =
     (if 0 \<le> v \<and> v < 2 ^ 32 then Inr (rev (le_bytes 4 v)) else Inl FieldError)"

fun build_Struct :: "(error + bytes) list \<Rightarrow> error + bytes" where
  "build_Struct [] = Inr []"
| "build_Struct (f # fs) =
     and_then f (\<lambda>b. and_then (build_Struct fs) (\<lambda>bs. Inr (b @ bs)))"

section \<open>BlockHeaderEncoder\<close>

text \<open>\<open>create_block_header\<close>, lines 117-134.\<close>

definition create_block_header :: "bytes \<Rightarrow> int \<Rightarrow> int \<Rightarrow> int \<Rightarrow> error + bytes" where
  "create_block_header hash_merkle_root time_value bits nonce =
     and_then (pack_I 1) (\<lambda>version.
     and_then (pack_qqqq 0 0 0 0) (\<lambda>hash_prev_block.
     and_then (pack_I time_value) (\<lambda>time_field.
     and_then (pack_I bits) (\<lambda>bits_field.
     and_then (pack_I nonce) (\<lambda>nonce_field.
       build_Struct
         [build_Bytes 4 version,
          build_Bytes 32 hash_prev_block,
          build_Bytes 32 hash_merkle_root,
          build_Bytes 4 time_field,
          build_Bytes 4 bits_field,
          build_Bytes 4 nonce_field])))))"

text \<open>
  Line 154, \<open>data_block[:-4] + struct.pack("<I", nonce)\<close>.  The slice \<open>[:-4]\<close> keeps all
  but the last four bytes, and nothing of a block shorter than four.
\<close>

definition set_nonce :: "bytes \<Rightarrow> int \<Rightarrow> error + bytes" where
  "set_nonce data_block nonce =
     and_then (pack_I nonce) (\<lambda>p. Inr (take (length data_block - 4) data_block @ p))"

section \<open>ScriptBuilder\<close>

subsection \<open>Hexadecimal text\<close>

text \<open>The lower-case digit of a value below 16, as \<open>format\<close> and \<open>bytes.hex\<close> write it.\<close>

definition hexdigit :: "nat \<Rightarrow> char" where
  "hexdigit d = ''0123456789abcdef'' ! d"

text \<open>The digits of \<open>n\<close> in base 16, without leading zeros.\<close>

fun hex_nat :: "nat \<Rightarrow> string" where
  "hex_nat n = (if n < 16 then [hexdigit n] else hex_nat (n div 16) @ [hexdigit (n mod 16)])"

declare hex_nat.simps [simp del]

text \<open>
  \<open>'{:02x}'.format(n)\<close> for \<open>n >= 0\<close>: the digits of \<open>n\<close>, padded with zeros on the left
  to a width of two.  The width is a minimum: a value above 255 keeps all its digits.
\<close>

definition format_02x :: "nat \<Rightarrow> string" where
  "format_02x n = (let s = hex_nat n in replicate (2 - length s) (CHR ''0'') @ s)"

text \<open>\<open>bytes.hex()\<close>: two digits for each byte.\<close>

definition hex_of_bytes :: "bytes \<Rightarrow> string" where
  "hex_of_bytes bs = concat (map (\<lambda>b. [hexdigit (unat b div 16), hexdigit (unat b mod 16)]) bs)"

text \<open>The value of a hexadecimal digit of either case; \<open>None\<close> for any other character.\<close>

definition hexval :: "char \<Rightarrow> nat option" where
  "hexval c =
     map_of
       [(CHR ''0'', 0), (CHR ''1'', 1), (CHR ''2'', 2), (CHR ''3'', 3), (CHR ''4'', 4),
        (CHR ''5'', 5), (CHR ''6'', 6), (CHR ''7'', 7), (CHR ''8'', 8), (CHR ''9'', 9),
        (CHR ''a'', 10), (CHR ''b'', 11), (CHR ''c'', 12), (CHR ''d'', 13), (CHR ''e'', 14),
        (CHR ''f'', 15), (CHR ''A'', 10), (CHR ''B'', 11), (CHR ''C'', 12), (CHR ''D'', 13),
        (CHR ''E'', 14), (CHR ''F'', 15)] c"

text \<open>ASCII whitespace: space, tab, line feed, vertical tab, form feed, carriage return.\<close>

definition is_space :: "char \<Rightarrow> bool" where
  "is_space c = (c \<in> set [CHR 0x20, CHR 0x09, CHR 0x0A, CHR 0x0B, CHR 0x0C, CHR 0x0D])"

text \<open>
  \<open>bytes.fromhex(s)\<close> (Python 3.7 and later): whitespace is skipped before a byte, then
  two hexadecimal digits are read; a character that is not a digit, or a digit without a
  second one, raises \<open>ValueError\<close>.
\<close>

fun bytes_fromhex :: "string \<Rightarrow> error + bytes" where
  "bytes_fromhex [] = Inr []"
| "bytes_fromhex (c # cs) =
     (if is_space c then bytes_fromhex cs
      else case hexval c of
        None \<Rightarrow> Inl ValueError
      | Some hi \<Rightarrow>
          (case cs of
             [] \<Rightarrow> Inl ValueError
           | d # r \<Rightarrow>
               (case hexval d of
                  None \<Rightarrow> Inl ValueError
                | Some lo \<Rightarrow>
                    and_then (bytes_fromhex r) (\<lambda>bs. Inr (of_nat (16 * hi + lo) # bs)))))"

subsection \<open>UTF-8\<close>

text \<open>
  \<open>str.encode('utf-8')\<close>, one code point at a time.  A surrogate (\<open>D800..DFFF\<close>) raises
  \<open>UnicodeEncodeError\<close>; such code points reach the program when a command-line argument
  is not valid UTF-8.  No Python string holds a code point of \<open>0x110000\<close> or more.
\<close>

definition utf8_char :: "nat \<Rightarrow> error + bytes" where
  "utf8_char c =
     (if c < 0x80 then Inr [of_nat c]
      else if c < 0x800 then Inr [of_nat (0xC0 + c div 64), of_nat (0x80 + c mod 64)]
      else if c < 0x10000 then
        (if 0xD800 \<le> c \<and> c \<le> 0xDFFF then Inl UnicodeEncodeError
         else Inr [of_nat (0xE0 + c div 4096), of_nat (0x80 + c div 64 mod 64),
                   of_nat (0x80 + c mod 64)])
      else if c < 0x110000 then
        Inr [of_nat (0xF0 + c div 262144), of_nat (0x80 + c div 4096 mod 64),
             of_nat (0x80 + c div 64 mod 64), of_nat (0x80 + c mod 64)]
      else Inl UnicodeEncodeError)"

fun utf8_encode :: "pystr \<Rightarrow> error + bytes" where
  "utf8_encode [] = Inr []"
| "utf8_encode (c # cs) =
     and_then (utf8_char c) (\<lambda>b. and_then (utf8_encode cs) (\<lambda>bs. Inr (b @ bs)))"

subsection \<open>Standard output\<close>

text \<open>
  What the program prints, in order: a line of ASCII text; the six lines of
  \<open>print_block_info\<close>, by the values they show (algorithm, merkle root, timestamp, public
  key, time, bits); the three lines of \<open>announce_found_genesis\<close>, by the hash and the
  nonce they show.  A function that prints returns its output with its result.
\<close>

datatype printed =
    Line string
  | Block_info string bytes pystr string int int
  | Found bytes int

type_synonym 'a io = "printed list \<times> (error + 'a)"

definition io_then :: "'a io \<Rightarrow> ('a \<Rightarrow> 'b io) \<Rightarrow> 'b io" where
  "io_then m f =
     (case snd m of
        Inl e \<Rightarrow> (fst m, Inl e)
      | Inr x \<Rightarrow> (fst m @ fst (f x), snd (f x)))"

definition no_output :: "error + 'a \<Rightarrow> 'a io" where
  "no_output r = ([], r)"

subsection \<open>The scripts\<close>

text \<open>
  \<open>create_input_script\<close>, lines 63-74.  \<open>len(psz_timestamp)\<close> is the length of a \<open>str\<close>:
  it counts code points.  The hexadecimal text is printed before \<open>bytes.fromhex\<close> reads it.
\<close>

definition create_input_script :: "pystr \<Rightarrow> bytes io" where
  "create_input_script psz_timestamp =
     (let psz_prefix = (if length psz_timestamp > 76 then ''4c'' else []);
          length_hex = format_02x (length psz_timestamp);
          script_prefix = ''04ffff001d0104'' @ psz_prefix @ length_hex
      in case utf8_encode psz_timestamp of
           Inl e \<Rightarrow> ([], Inl e)
         | Inr encoded \<Rightarrow>
             (let full_script_hex = script_prefix @ hex_of_bytes encoded
              in ([Line full_script_hex], bytes_fromhex full_script_hex)))"

text \<open>\<open>create_output_script\<close>, lines 76-79.\<close>

definition create_output_script :: "string \<Rightarrow> error + bytes" where
  "create_output_script pubkey =
     (let script_len = ''41''; OP_CHECKSIG = ''ac''
      in bytes_fromhex (script_len @ pubkey @ OP_CHECKSIG))"

text \<open>
  The input script in the words of the specification, from the UTF-8 bytes of the
  timestamp: the prefix, the marker \<open>4c\<close> when there are more than 76 bytes, one length
  byte holding the number of bytes masked with \<open>0xff\<close>, then the bytes.
\<close>

definition specified_input_script :: "bytes \<Rightarrow> bytes" where
  "specified_input_script encoded =
     [0x04, 0xff, 0xff, 0x00, 0x1d, 0x01, 0x04]
     @ (if length encoded > 76 then [0x4c] else [])
     @ [of_nat (length encoded mod 256)]
     @ encoded"

text \<open>The defaults of \<open>--timestamp\<close> and \<open>--pubkey\<close>, lines 34 and 41.\<close>

definition default_timestamp :: pystr where
  "default_timestamp =
     map of_char ''The Times 03/Jan/2009 Chancellor on brink of second bailout for banks''"

definition default_pubkey :: string where
  "default_pubkey =
     ''04678afdb0fe5548271967f1a67130b7105cd6a828e03909a67962e0ea1f61deb649f6bc3f4cef38c4f35504e51ec112de5c384df7ba0b8d578a4c702b6bf11d5f''"

section \<open>TransactionEncoder\<close>

text \<open>
  \<open>create_transaction\<close>, lines 81-115; the third argument is \<open>options.value\<close>, the only
  option the function reads.  The dummy of \<open>127 + len(input_script)\<close> zero bytes always
  parses, since the fields of the structure add up to that length; \<open>struct.pack\<close> runs
  when the fields are assigned, before the structure is built.
\<close>

definition create_transaction :: "bytes \<Rightarrow> bytes \<Rightarrow> int \<Rightarrow> error + bytes" where
  "create_transaction input_script output_script val =
     and_then (pack_I 1) (\<lambda>version.
     and_then (pack_qqqq 0 0 0 0) (\<lambda>prev_output.
     and_then (pack_q val) (\<lambda>out_value.
       build_Struct
         [build_Bytes 4 version,
          build_Byte 1,
          build_Bytes 32 prev_output,
          build_UBInt32 0xFFFFFFFF,
          build_Byte (int (length input_script)),
          build_Bytes (length input_script) input_script,
          build_UBInt32 0xFFFFFFFF,
          build_Byte 1,
          build_Bytes 8 out_value,
          build_Byte 0x43,
          build_Bytes 0x43 output_script,
          build_UBInt32 0])))"

section \<open>DifficultyDecoder\<close>

text \<open>
  Python's \<open>2 ** k\<close> is an \<open>int\<close> for \<open>k >= 0\<close> and a \<open>float\<close> for \<open>k < 0\<close>, so the
  target of line 142 is a number of either kind.  The floats that occur are a power of two
  times an integer below \<open>2**24\<close>: they are exact down to the exponent \<open>-1074\<close>, below
  which the power underflows to \<open>0.0\<close>.  Python compares an \<open>int\<close> with a \<open>float\<close> by
  value, without rounding.  A float is therefore modelled by the rational it holds.
\<close>

datatype pynum = PyInt int | PyFloat rat

definition pynum_value :: "pynum \<Rightarrow> rat" where
  "pynum_value x = (case x of PyInt i \<Rightarrow> of_int i | PyFloat r \<Rightarrow> r)"

definition py_pow2 :: "int \<Rightarrow> pynum" where
  "py_pow2 k =
     (if 0 \<le> k then PyInt (2 ^ nat k)
      else if - 1074 \<le> k then PyFloat (1 / 2 ^ nat (- k))
      else PyFloat 0)"

definition py_mul :: "int \<Rightarrow> pynum \<Rightarrow> pynum" where
  "py_mul m x = (case x of PyInt i \<Rightarrow> PyInt (m * i) | PyFloat r \<Rightarrow> PyFloat (of_int m * r))"

definition py_less :: "int \<Rightarrow> pynum \<Rightarrow> bool" where
  "py_less i x = (case x of PyInt t \<Rightarrow> i < t | PyFloat r \<Rightarrow> of_int i < r)"

text \<open>Line 142: \<open>(bits & 0xffffff) * 2 ** (8 * ((bits >> 24) - 3))\<close>.\<close>

definition decode_bits :: "int \<Rightarrow> pynum" where
  "decode_bits bits = py_mul (bits AND 0xffffff) (py_pow2 (8 * (drop_bit 24 bits - 3)))"

section \<open>HashEngine\<close>

text \<open>
  The hash functions come from outside the program: \<open>hashlib.sha256(x).digest()\<close>,
  \<open>scrypt.hash(password, salt, N, r, p, buflen)\<close>, and \<open>getPoWHash\<close> of the modules
  \<open>xcoin_hash\<close>, \<open>x13_hash\<close> and \<open>x15_hash\<close>, each of which is \<open>None\<close> when the module
  cannot be imported.  They are parameters of the model, taken to return for every input.
\<close>

record externals =
  sha256 :: "bytes \<Rightarrow> bytes"
  scrypt_hash :: "bytes \<Rightarrow> bytes \<Rightarrow> nat \<Rightarrow> nat \<Rightarrow> nat \<Rightarrow> nat \<Rightarrow> bytes"
  xcoin_hash :: "(bytes \<Rightarrow> bytes) option"
  x13_hash :: "(bytes \<Rightarrow> bytes) option"
  x15_hash :: "(bytes \<Rightarrow> bytes) option"

text \<open>
  \<open>generate_hashes_from_block\<close>, lines 156-181.  The double SHA-256 is taken first; an
  algorithm name outside the five leaves \<open>header_hash\<close> empty.
\<close>

definition generate_hashes_from_block ::
    "externals \<Rightarrow> bytes \<Rightarrow> string \<Rightarrow> error + (bytes \<times> bytes)" where
  "generate_hashes_from_block env data_block algorithm =
     (let sha256_hash = rev (sha256 env (sha256 env data_block))
      in if algorithm = ''scrypt'' then
           Inr (sha256_hash, rev (scrypt_hash env data_block data_block 1024 1 1 32))
         else if algorithm = ''SHA256'' then
           Inr (sha256_hash, sha256_hash)
         else if algorithm = ''X11'' then
           (case xcoin_hash env of
              None \<Rightarrow> Inl (SystemExit ''Cannot run X11 algorithm: module xcoin_hash not found'')
            | Some getPoWHash \<Rightarrow> Inr (sha256_hash, rev (getPoWHash data_block)))
         else if algorithm = ''X13'' then
           (case x13_hash env of
              None \<Rightarrow> Inl (SystemExit ''Cannot run X13 algorithm: module x13_hash not found'')
            | Some getPoWHash \<Rightarrow> Inr (sha256_hash, rev (getPoWHash data_block)))
         else if algorithm = ''X15'' then
           (case x15_hash env of
              None \<Rightarrow> Inl (SystemExit ''Cannot run X15 algorithm: module x15_hash not found'')
            | Some getPoWHash \<Rightarrow> Inr (sha256_hash, rev (getPoWHash data_block)))
         else Inr (sha256_hash, []))"

text \<open>
  \<open>int(s, 16)\<close> on the text \<open>bytes.hex()\<close> returns, which holds hexadecimal digits only:
  the empty text raises \<open>ValueError\<close>.  (Python also accepts a sign, a prefix \<open>0x\<close>,
  underscores and surrounding whitespace; none of them occurs in such a text.)
\<close>

fun hex_digits_value :: "int \<Rightarrow> string \<Rightarrow> error + int" where
  "hex_digits_value acc [] = Inr acc"
| "hex_digits_value acc (c # cs) =
     (case hexval c of
        None \<Rightarrow> Inl ValueError
      | Some d \<Rightarrow> hex_digits_value (16 * acc + int d) cs)"

definition int_base16 :: "string \<Rightarrow> error + int" where
  "int_base16 s = (if s = [] then Inl ValueError else hex_digits_value 0 s)"

text \<open>\<open>is_genesis_hash\<close>, lines 183-185.\<close>

definition is_genesis_hash :: "bytes \<Rightarrow> pynum \<Rightarrow> error + bool" where
  "is_genesis_hash header_hash target =
     and_then (int_base16 (hex_of_bytes header_hash)) (\<lambda>v. Inr (py_less v target))"

text \<open>The unsigned integer a byte string denotes, most significant byte first.\<close>

definition be_int :: "bytes \<Rightarrow> int" where
  "be_int bs = foldl (\<lambda>a b. 256 * a + uint b) 0 bs"

section \<open>Miner\<close>

text \<open>
  The loop of \<open>generate_hash\<close>, lines 144-154.  It ends when a hash is below the target,
  when hashing fails, or when \<open>struct.pack\<close> refuses the incremented nonce; the distance
  of the nonce from \<open>2**32\<close> shrinks with every iteration.  \<open>calculate_hashrate\<close> (line
  146) reads the clock and, once in a million nonces, writes a progress line; it changes
  neither the nonce, the block nor the target, and is left out.
\<close>

function generate_hash_loop ::
    "externals \<Rightarrow> bytes \<Rightarrow> string \<Rightarrow> int \<Rightarrow> pynum \<Rightarrow> error + (bytes \<times> int)" where
  "generate_hash_loop env data_block algorithm nonce target =
     (case generate_hashes_from_block env data_block algorithm of
        Inl e \<Rightarrow> Inl e
      | Inr (sha256_hash, header_hash) \<Rightarrow>
          (case is_genesis_hash header_hash target of
             Inl e \<Rightarrow> Inl e
           | Inr found \<Rightarrow>
               if found then
                 (if algorithm \<in> set [''X11'', ''X13'', ''X15'']
                  then Inr (header_hash, nonce)
                  else Inr (sha256_hash, nonce))
               else
                 (case pack_I (nonce + 1) of
                    Inl e \<Rightarrow> Inl e
                  | Inr packed \<Rightarrow>
                      generate_hash_loop env
                        (take (length data_block - 4) data_block @ packed)
                        algorithm (nonce + 1) target)))"
  by pat_completeness auto
termination
proof (relation "measure (\<lambda>(env, data_block, algorithm, nonce, target). nat (2 ^ 32 - nonce))")
  show "wf (measure (\<lambda>(env :: externals, data_block :: bytes, algorithm :: string,
                       nonce :: int, target :: pynum). nat (2 ^ 32 - nonce)))"
    by simp
next
  fix env :: externals and data_block :: bytes and algorithm :: string and nonce :: int
    and target :: pynum and packed :: bytes
  assume "pack_I (nonce + 1) = Inr packed"
  then have "nonce + 1 < 2 ^ 32"
    by (simp add: pack_I_def split: if_splits)
  then show "((env, take (length data_block - 4) data_block @ packed, algorithm, nonce + 1,
               target), (env, data_block, algorithm, nonce, target))
             \<in> measure (\<lambda>(env, data_block, algorithm, nonce, target). nat (2 ^ 32 - nonce))"
    by simp
qed

declare generate_hash_loop.simps [simp del]

text \<open>\<open>generate_hash\<close>, lines 137-154.\<close>

definition generate_hash ::
    "externals \<Rightarrow> bytes \<Rightarrow> string \<Rightarrow> int \<Rightarrow> int \<Rightarrow> (bytes \<times> int) io" where
  "generate_hash env data_block algorithm start_nonce bits =
     ([Line ''Searching for genesis hash..''],
      (let nonce = start_nonce; target = decode_bits bits
       in generate_hash_loop env data_block algorithm nonce target))"

text \<open>
  The block the loop hashes while its counter is \<open>n\<close>: the block it was given in the
  first iteration, and from then on that block with its last four bytes replaced by the
  packed counter (line 154).
\<close>

definition block_at :: "bytes \<Rightarrow> int \<Rightarrow> int \<Rightarrow> bytes" where
  "block_at data_block start_nonce n =
     (if n = start_nonce then data_block
      else take (length data_block - 4) data_block @ le_bytes 4 n)"

section \<open>The program\<close>

text \<open>The options as \<open>get_args\<close> returns them, with \<open>bits\<close> already defaulted.\<close>

record options =
  opt_time :: int
  opt_timestamp :: pystr
  opt_nonce :: int
  opt_algorithm :: string
  opt_pubkey :: string
  opt_value :: int
  opt_bits :: int

definition supported_algorithms :: "string list" where
  "supported_algorithms = [''SHA256'', ''scrypt'', ''X11'', ''X13'', ''X15'']"

text \<open>\<open>get_algorithm\<close>, lines 56-61.\<close>

definition get_algorithm :: "options \<Rightarrow> error + string" where
  "get_algorithm opts =
     (if opt_algorithm opts \<in> set supported_algorithms then Inr (opt_algorithm opts)
      else Inl (SystemExit
        ''Error: Given algorithm must be one of: ['SHA256', 'scrypt', 'X11', 'X13', 'X15']''))"

text \<open>\<open>print_block_info\<close>, lines 198-204, and \<open>announce_found_genesis\<close>, lines 206-209.\<close>

definition print_block_info :: "options \<Rightarrow> bytes \<Rightarrow> unit io" where
  "print_block_info opts hash_merkle_root =
     ([Block_info (opt_algorithm opts) (rev hash_merkle_root) (opt_timestamp opts)
         (opt_pubkey opts) (opt_time opts) (opt_bits opts)],
      Inr ())"

definition announce_found_genesis :: "bytes \<Rightarrow> int \<Rightarrow> unit io" where
  "announce_found_genesis genesis_hash nonce = ([Found genesis_hash nonce], Inr ())"

text \<open>\<open>main\<close>, lines 14-27.\<close>

definition main :: "externals \<Rightarrow> options \<Rightarrow> unit io" where
  "main env opts =
     io_then (no_output (get_algorithm opts)) (\<lambda>algorithm.
     io_then (create_input_script (opt_timestamp opts)) (\<lambda>input_script.
     io_then (no_output (create_output_script (opt_pubkey opts))) (\<lambda>output_script.
     io_then (no_output (create_transaction input_script output_script (opt_value opts)))
       (\<lambda>tx.
     (let hash_merkle_root = sha256 env (sha256 env tx) in
     io_then (print_block_info opts hash_merkle_root) (\<lambda>_.
     io_then (no_output (create_block_header hash_merkle_root (opt_time opts) (opt_bits opts)
                (opt_nonce opts))) (\<lambda>block_header.
     io_then (generate_hash env block_header algorithm (opt_nonce opts) (opt_bits opts))
       (\<lambda>(genesis_hash, nonce).
     announce_found_genesis genesis_hash nonce))))))))"

text \<open>
  The exit status of the process: 0 when \<open>main\<close> returns, 1 after \<open>sys.exit\<close> with a
  message and after an exception that nothing catches.
\<close>

definition exit_status :: "error + unit \<Rightarrow> nat" where
  "exit_status r = (case r of Inl e \<Rightarrow> 1 | Inr u \<Rightarrow> 0)"

text \<open>The selected algorithm needs a module that cannot be imported.\<close>

definition backend_missing :: "externals \<Rightarrow> string \<Rightarrow> bool" where
  "backend_missing env algorithm =
     (algorithm = ''X11'' \<and> xcoin_hash env = None
      \<or> algorithm = ''X13'' \<and> x13_hash env = None
      \<or> algorithm = ''X15'' \<and> x15_hash env = None)"

text \<open>
  The proof-of-work digest of a block, read as an unsigned integer with the most
  significant byte first; \<open>None\<close> when hashing fails or the digest is empty.
\<close>

definition pow_value :: "externals \<Rightarrow> string \<Rightarrow> bytes \<Rightarrow> int option" where
  "pow_value env algorithm data_block =
     (case generate_hashes_from_block env data_block algorithm of
        Inl e \<Rightarrow> None
      | Inr (sha256_hash, header_hash) \<Rightarrow>
          if header_hash = [] then None else Some (be_int header_hash))"

section \<open>Concrete inputs\<close>

text \<open>
  Inputs at which the model is evaluated below.  The stand-in for SHA-256 returns the
  same 32 bytes for every input; the stand-in for scrypt returns a digest of value 0 when
  the low byte of the nonce field (byte 76 of the block) is 2, and the largest digest
  otherwise; no X11, X13 or X15 module is installed, except in \<open>with_xcoin\<close>.
\<close>

definition stub_sha256 :: "bytes \<Rightarrow> bytes" where
  "stub_sha256 data = replicate 32 0x11"

definition stub_scrypt :: "bytes \<Rightarrow> bytes \<Rightarrow> nat \<Rightarrow> nat \<Rightarrow> nat \<Rightarrow> nat \<Rightarrow> bytes" where
  "stub_scrypt password salt N r p buflen =
     (if take 1 (drop 76 password) = [2] then replicate 32 0 else replicate 32 0xFF)"

definition stub_externals :: externals where
  "stub_externals =
     \<lparr>sha256 = stub_sha256, scrypt_hash = stub_scrypt,
      xcoin_hash = None, x13_hash = None, x15_hash = None\<rparr>"

definition with_xcoin :: externals where
  "with_xcoin = stub_externals\<lparr>xcoin_hash := Some (\<lambda>data. replicate 32 0)\<rparr>"

definition example_header :: bytes where
  "example_header =
     [1, 0, 0, 0] @ replicate 32 0 @ replicate 32 0x11
     @ [0x29, 0xAB, 0x5F, 0x49, 0xFF, 0xFF, 0x00, 0x1D, 0, 0, 0, 0]"

definition example_options :: options where
  "example_options =
     \<lparr>opt_time = 1231006505, opt_timestamp = default_timestamp, opt_nonce = 0,
      opt_algorithm = ''X11'', opt_pubkey = default_pubkey, opt_value = 5000000000,
      opt_bits = 0x1e0ffff0\<rparr>"

section \<open>Theorems\<close>

subsection \<open>Packing and building\<close>

lemma le_bytes_4:
  "le_bytes 4 v =
     [word_of_int v, word_of_int (v div 256), word_of_int (v div 65536),
      word_of_int (v div 16777216)]"
proof -
  have "v div 256 div 256 = v div 65536"
    using zdiv_zmult2_eq [of 256 v 256] by simp
  moreover have "v div 256 div 256 div 256 = v div 16777216"
    using zdiv_zmult2_eq [of 256 v 256] zdiv_zmult2_eq [of 256 v 65536] by simp
  ultimately show ?thesis
    by (simp add: numeral_eq_Suc)
qed

lemma length_le_bytes: "length (le_bytes n v) = n"
  by (induction n arbitrary: v) simp_all

lemma div_div_256: "0 < c \<Longrightarrow> (v::int) div c div 256 = v div (c * 256)"
  by (simp add: zdiv_zmult2_eq)

lemma le_bytes_8:
  "le_bytes 8 v =
     [word_of_int v, word_of_int (v div 256), word_of_int (v div 65536),
      word_of_int (v div 16777216), word_of_int (v div 4294967296),
      word_of_int (v div 1099511627776), word_of_int (v div 281474976710656),
      word_of_int (v div 72057594037927936)]"
  by (simp add: numeral_eq_Suc) (simp add: div_div_256)

lemma pack_q_0: "pack_q 0 = Inr [0,0,0,0,0,0,0,0]"
  by (simp add: pack_q_def numeral_eq_Suc)

lemma pack_qqqq_0: "pack_qqqq 0 0 0 0 = Inr (replicate 32 0)"
  by (simp add: pack_qqqq_def pack_q_0 and_then_def numeral_eq_Suc)

lemma pack_I_1: "pack_I 1 = Inr [1, 0, 0, 0]"
  by (simp add: pack_I_def le_bytes_4)

lemma build_UBInt32_max: "build_UBInt32 0xFFFFFFFF = Inr [0xFF, 0xFF, 0xFF, 0xFF]"
  by (simp add: build_UBInt32_def le_bytes_4)

lemma build_UBInt32_0: "build_UBInt32 0 = Inr [0, 0, 0, 0]"
  by (simp add: build_UBInt32_def le_bytes_4)

subsection \<open>The difficulty target\<close>

lemma and_mask24: "(bits::int) AND 0xffffff = bits mod 2 ^ 24"
proof -
  have "bits AND mask 24 = bits mod 2 ^ 24"
    by (simp add: take_bit_eq_mod flip: take_bit_eq_mask)
  moreover have "(mask 24 :: int) = 0xffffff"
    by (simp add: mask_eq_exp_minus_1)
  ultimately show ?thesis by simp
qed

lemma decode_bits_float: "decode_bits 0x02008000 = PyFloat 128"
  by (simp add: decode_bits_def and_mask24 drop_bit_eq_div py_pow2_def py_mul_def)

text \<open>
  C5.  For every 32-bit \<open>bits\<close> the target of line 142 has the value
  \<open>(bits & 0x00ffffff) * 2^(8*((bits >> 24) - 3))\<close>.  With an exponent byte of at least 3
  the target is a Python \<open>int\<close>, computed without any bound; with a smaller one Python's
  \<open>**\<close> gives a float, which holds the same value exactly.  In particular
  \<open>0x1d00ffff\<close> decodes to \<open>0x00ffff * 2^208\<close> and \<open>0x1e0ffff0\<close> to \<open>0x0ffff0 * 2^216\<close>.
\<close>

theorem decode_bits_target:
  assumes "0 \<le> bits" and "bits < 2 ^ 32"
  shows "pynum_value (decode_bits bits) =
           of_int (bits AND 0x00ffffff) * 2 powi (8 * (drop_bit 24 bits - 3))
         \<and> (3 \<le> drop_bit 24 bits \<longrightarrow>
              decode_bits bits =
                PyInt ((bits AND 0x00ffffff) * 2 ^ nat (8 * (drop_bit 24 bits - 3))))
         \<and> decode_bits 0x1d00ffff = PyInt (0x00ffff * 2 ^ 208)
         \<and> decode_bits 0x1e0ffff0 = PyInt (0x0ffff0 * 2 ^ 216)"
proof -
  have e: "0 \<le> drop_bit 24 bits" using assms(1) by simp
  have v: "pynum_value (decode_bits bits) =
           of_int (bits AND 0x00ffffff) * 2 powi (8 * (drop_bit 24 bits - 3))"
  proof (cases "3 \<le> drop_bit 24 bits")
    case True
    then show ?thesis
      by (simp add: decode_bits_def py_pow2_def py_mul_def pynum_value_def power_int_def)
  next
    case False
    with e have "- 1074 \<le> 8 * (drop_bit 24 bits - 3)" and "\<not> 0 \<le> 8 * (drop_bit 24 bits - 3)"
      by simp_all
    then show ?thesis
      by (simp add: decode_bits_def py_pow2_def py_mul_def pynum_value_def power_int_def
          field_simps)
  qed
  have i: "3 \<le> drop_bit 24 bits \<longrightarrow>
              decode_bits bits =
                PyInt ((bits AND 0x00ffffff) * 2 ^ nat (8 * (drop_bit 24 bits - 3)))"
    by (simp add: decode_bits_def py_pow2_def py_mul_def)
  have a: "decode_bits 0x1d00ffff = PyInt (0x00ffff * 2 ^ 208)"
    by (simp add: decode_bits_def and_mask24 drop_bit_eq_div py_pow2_def py_mul_def)
  have b: "decode_bits 0x1e0ffff0 = PyInt (0x0ffff0 * 2 ^ 216)"
    by (simp add: decode_bits_def and_mask24 drop_bit_eq_div py_pow2_def py_mul_def)
  from v i a b show ?thesis by blast
qed

theorem decode_bits_target_witness:
  "(0::int) \<le> 0x1d00ffff \<and> (0x1d00ffff::int) < 2 ^ 32 \<and> 3 \<le> drop_bit 24 (0x1d00ffff::int)
   \<and> decode_bits 0x1d00ffff =
       PyInt 0x00000000FFFF0000000000000000000000000000000000000000000000000000"
  using decode_bits_target [of "0x1d00ffff"]
  by (simp add: and_mask24 drop_bit_eq_div)

subsection \<open>The block header\<close>

text \<open>
  C6.  For a 32-byte merkle root and \<open>time\<close>, \<open>bits\<close> and \<open>nonce\<close> in 32-bit range the
  header is 80 bytes: version 1 in four little-endian bytes, 32 zero bytes, the merkle root
  as supplied, then \<open>time\<close>, \<open>bits\<close> and \<open>nonce\<close>, each in four little-endian bytes.
\<close>

theorem create_block_header_layout:
  assumes "length hash_merkle_root = 32"
    and "0 \<le> time_value" and "time_value < 2 ^ 32"
    and "0 \<le> bits" and "bits < 2 ^ 32"
    and "0 \<le> nonce" and "nonce < 2 ^ 32"
  shows "\<exists>h. create_block_header hash_merkle_root time_value bits nonce = Inr h
           \<and> length h = 80
           \<and> h = [1, 0, 0, 0] @ replicate 32 0 @ hash_merkle_root
                @ [word_of_int time_value, word_of_int (time_value div 256),
                   word_of_int (time_value div 65536), word_of_int (time_value div 16777216)]
                @ [word_of_int bits, word_of_int (bits div 256),
                   word_of_int (bits div 65536), word_of_int (bits div 16777216)]
                @ [word_of_int nonce, word_of_int (nonce div 256),
                   word_of_int (nonce div 65536), word_of_int (nonce div 16777216)]"
  using assms
  by (simp add: create_block_header_def pack_I_1 pack_qqqq_0 pack_I_def le_bytes_4
      and_then_def build_Bytes_def)

theorem create_block_header_layout_witness:
  "length (replicate 32 (7::byte)) = 32
   \<and> (0::int) \<le> 1231006505 \<and> (1231006505::int) < 2 ^ 32
   \<and> (0::int) \<le> 0x1d00ffff \<and> (0x1d00ffff::int) < 2 ^ 32
   \<and> (0::int) \<le> 2083236893 \<and> (2083236893::int) < 2 ^ 32
   \<and> create_block_header (replicate 32 7) 1231006505 0x1d00ffff 2083236893 =
       Inr ([1, 0, 0, 0] @ replicate 32 0 @ replicate 32 7
            @ [0x29, 0xAB, 0x5F, 0x49, 0xFF, 0xFF, 0x00, 0x1D, 0x1D, 0xAC, 0x2B, 0x7C])"
  using create_block_header_layout [of "replicate 32 7" 1231006505 "0x1d00ffff" 2083236893]
  by simp

text \<open>
  C9.  Replacing the nonce of an 80-byte header (line 154) with a nonce in 32-bit range
  gives an 80-byte header with the same first 76 bytes; the last four are the nonce,
  little-endian.
\<close>

theorem set_nonce_frame:
  assumes "length header = 80" and "0 \<le> nonce" and "nonce < 2 ^ 32"
  shows "\<exists>h. set_nonce header nonce = Inr h \<and> length h = 80
            \<and> take 76 h = take 76 header
            \<and> drop 76 h = [word_of_int nonce, word_of_int (nonce div 256),
                 word_of_int (nonce div 65536), word_of_int (nonce div 16777216)]"
  using assms
  by (simp add: set_nonce_def pack_I_def le_bytes_4 and_then_def)

theorem set_nonce_frame_witness:
  "length (replicate 80 (0xAB::byte)) = 80 \<and> (0::int) \<le> 0x01020304
   \<and> (0x01020304::int) < 2 ^ 32
   \<and> set_nonce (replicate 80 0xAB) 0x01020304 = Inr (replicate 76 0xAB @ [4, 3, 2, 1])"
  using set_nonce_frame [of "replicate 80 0xAB" "0x01020304"]
  by (simp add: set_nonce_def pack_I_def le_bytes_4 and_then_def)

subsection \<open>The input script\<close>

lemma below_16:
  assumes "d < (16::nat)"
  shows "d = 0 \<or> d = 1 \<or> d = 2 \<or> d = 3 \<or> d = 4 \<or> d = 5 \<or> d = 6 \<or> d = 7 \<or> d = 8
      \<or> d = 9 \<or> d = 10 \<or> d = 11 \<or> d = 12 \<or> d = 13 \<or> d = 14 \<or> d = 15"
  using assms by presburger

lemma hexval_hexdigit: "d < 16 \<Longrightarrow> hexval (hexdigit d) = Some d"
  by (drule below_16, elim disjE) (simp_all add: hexdigit_def hexval_def)

lemma not_space_hexdigit: "d < 16 \<Longrightarrow> \<not> is_space (hexdigit d)"
  by (drule below_16, elim disjE) (simp_all add: hexdigit_def is_space_def)

lemma byte_of_nibbles: "of_nat (16 * (unat b div 16) + unat b mod 16) = (b::byte)"
  by simp

lemma bytes_fromhex_hex_append:
  "bytes_fromhex (hex_of_bytes a @ s) = and_then (bytes_fromhex s) (\<lambda>bs. Inr (a @ bs))"
proof (induction a)
  case Nil
  show ?case by (cases "bytes_fromhex s") (simp_all add: hex_of_bytes_def and_then_def)
next
  case (Cons b a)
  have d: "unat b div 16 < 16"
    using unsigned_less [of b, where ?'a = nat] by simp
  have m: "unat b mod 16 < 16" by simp
  have "hex_of_bytes (b # a) @ s =
          hexdigit (unat b div 16) # hexdigit (unat b mod 16) # (hex_of_bytes a @ s)"
    by (simp add: hex_of_bytes_def)
  then show ?case
    using Cons.IH
    by (simp add: hexval_hexdigit [OF d] hexval_hexdigit [OF m] not_space_hexdigit [OF d]
        and_then_def del: of_nat_add of_nat_mult split: sum.splits)
qed

lemma bytes_fromhex_hex: "bytes_fromhex (hex_of_bytes a) = Inr a"
  using bytes_fromhex_hex_append [of a "[]"] by (simp add: and_then_def)

lemma format_02x_byte: "n \<le> 255 \<Longrightarrow> format_02x n = hex_of_bytes [of_nat n]"
proof -
  assume n: "n \<le> 255"
  then have u: "unat (of_nat n :: byte) = n"
    by (simp add: unat_of_nat)
  from n have q: "n div 16 < 16" by simp
  have h0: "hexdigit 0 = CHR ''0''" by (simp add: hexdigit_def)
  show ?thesis
  proof (cases "n < 16")
    case True
    then show ?thesis
      by (simp add: format_02x_def hex_nat.simps [of n] hex_of_bytes_def u h0)
  next
    case False
    with q show ?thesis
      by (simp add: format_02x_def hex_nat.simps [of n] hex_nat.simps [of "n div 16"]
          hex_of_bytes_def u)
  qed
qed

lemma prefix_hex: "''04ffff001d0104'' = hex_of_bytes [0x04, 0xff, 0xff, 0x00, 0x1d, 0x01, 0x04]"
  by (simp add: hex_of_bytes_def hexdigit_def)

lemma marker_hex: "''4c'' = hex_of_bytes [0x4c]"
  by (simp add: hex_of_bytes_def hexdigit_def)

lemma hex_of_bytes_append: "hex_of_bytes (a @ b) = hex_of_bytes a @ hex_of_bytes b"
  by (simp add: hex_of_bytes_def)

lemma create_input_script_code_points:
  assumes "utf8_encode psz_timestamp = Inr encoded" and "length psz_timestamp \<le> 255"
  shows "create_input_script psz_timestamp =
           ([Line (hex_of_bytes ([0x04, 0xff, 0xff, 0x00, 0x1d, 0x01, 0x04]
                    @ (if length psz_timestamp > 76 then [0x4c] else [])
                    @ [of_nat (length psz_timestamp)] @ encoded))],
            Inr ([0x04, 0xff, 0xff, 0x00, 0x1d, 0x01, 0x04]
                 @ (if length psz_timestamp > 76 then [0x4c] else [])
                 @ [of_nat (length psz_timestamp)] @ encoded))"
proof -
  let ?bs = "[0x04, 0xff, 0xff, 0x00, 0x1d, 0x01, 0x04]
                 @ (if length psz_timestamp > 76 then [0x4c] else [])
                 @ [of_nat (length psz_timestamp)] @ encoded"
  have h: "(''04ffff001d0104'' @ (if length psz_timestamp > 76 then ''4c'' else [])
          @ format_02x (length psz_timestamp)) @ hex_of_bytes encoded = hex_of_bytes ?bs"
    unfolding prefix_hex marker_hex format_02x_byte [OF assms(2)]
    by (simp add: hex_of_bytes_append) (simp add: hex_of_bytes_def)
  have "create_input_script psz_timestamp =
          ([Line (hex_of_bytes ?bs)], bytes_fromhex (hex_of_bytes ?bs))"
    by (simp only: create_input_script_def Let_def assms(1) sum.case) (simp only: h)
  then show ?thesis
    by (simp only: bytes_fromhex_hex)
qed

lemma utf8_encode_ascii:
  "\<forall>c\<in>set s. c < 128 \<Longrightarrow> utf8_encode s = Inr (map of_nat s)"
  by (induction s) (simp_all add: utf8_char_def and_then_def)

lemma bytes_fromhex_odd:
  "list_all (\<lambda>c. hexval c \<noteq> None \<and> \<not> is_space c) s \<Longrightarrow> odd (length s)
     \<Longrightarrow> bytes_fromhex s = Inl ValueError"
proof (induction "length s" arbitrary: s rule: less_induct)
  case less
  show ?case
  proof (cases s)
    case Nil
    with less.prems show ?thesis by simp
  next
    case (Cons c cs)
    note s = this
    show ?thesis
    proof (cases cs)
      case Nil
      with s less.prems show ?thesis by auto
    next
      case (Cons d r)
      with s less.prems have "bytes_fromhex r = Inl ValueError"
        by (intro less.hyps) simp_all
      with s Cons less.prems show ?thesis
        by (auto simp: and_then_def)
    qed
  qed
qed

lemma hex_of_bytes_digits:
  "list_all (\<lambda>c. hexval c \<noteq> None \<and> \<not> is_space c) (hex_of_bytes bs)"
proof (induction bs)
  case Nil
  show ?case by (simp add: hex_of_bytes_def)
next
  case (Cons b bs)
  have d: "unat b div 16 < 16"
    using unsigned_less [of b, where ?'a = nat] by simp
  have m: "unat b mod 16 < 16" by simp
  have "hex_of_bytes (b # bs) =
          hexdigit (unat b div 16) # hexdigit (unat b mod 16) # hex_of_bytes bs"
    by (simp add: hex_of_bytes_def)
  with Cons show ?case
    by (simp add: hexval_hexdigit [OF d] hexval_hexdigit [OF m] not_space_hexdigit [OF d]
        not_space_hexdigit [OF m])
qed

lemma length_hex_of_bytes: "length (hex_of_bytes bs) = 2 * length bs"
  by (induction bs) (simp_all add: hex_of_bytes_def)

lemma format_02x_256: "format_02x 256 = ''100''"
  by (simp add: format_02x_def hex_nat.simps [of 256] hex_nat.simps [of 16]
      hex_nat.simps [of 1] hex_nat.simps [of "Suc 0"] hexdigit_def)

lemma create_input_script_256:
  "snd (create_input_script (replicate 256 0x61)) = Inl ValueError"
proof -
  let ?enc = "map of_nat (replicate 256 (0x61::nat)) :: bytes"
  have e: "utf8_encode (replicate 256 0x61) = Inr ?enc"
    by (rule utf8_encode_ascii) simp
  let ?P = "\<lambda>c. hexval c \<noteq> None \<and> \<not> is_space c"
  have "list_all ?P (''04ffff001d0104'' @ ''4c'' @ ''100'')"
    by (simp add: hexval_def is_space_def)
  then have "list_all ?P ((''04ffff001d0104'' @ ''4c'' @ ''100'') @ hex_of_bytes ?enc)"
    using hex_of_bytes_digits [of ?enc] by (simp only: list_all_append simp_thms)
  moreover have "odd (length ((''04ffff001d0104'' @ ''4c'' @ ''100'') @ hex_of_bytes ?enc))"
    by (simp add: length_hex_of_bytes)
  ultimately have "bytes_fromhex ((''04ffff001d0104'' @ ''4c'' @ ''100'') @ hex_of_bytes ?enc)
          = Inl ValueError"
    by (rule bytes_fromhex_odd)
  then show ?thesis
    by (simp only: create_input_script_def Let_def e sum.case format_02x_256 length_replicate
        snd_conv) simp
qed

text \<open>
  C2, as the claim states it, fails twice.  The program measures the timestamp with
  \<open>len\<close> of the \<open>str\<close>, which counts code points: for the one-character timestamp
  \<open>U+00E9\<close>, two bytes in UTF-8, the length byte is 1 where the claim says 2.  And the
  length is formatted with a minimum width, not masked: for 256 characters it is the three
  digits \<open>100\<close>, the hexadecimal text has an odd number of digits, and \<open>bytes.fromhex\<close>
  raises \<open>ValueError\<close>, so there is no script at all.
\<close>

theorem create_input_script_counterexample:
  "utf8_encode [0xE9] = Inr [0xC3, 0xA9]
   \<and> specified_input_script [0xC3, 0xA9] =
        [0x04, 0xff, 0xff, 0x00, 0x1d, 0x01, 0x04, 0x02, 0xC3, 0xA9]
   \<and> snd (create_input_script [0xE9]) =
        Inr [0x04, 0xff, 0xff, 0x00, 0x1d, 0x01, 0x04, 0x01, 0xC3, 0xA9]
   \<and> snd (create_input_script (replicate 256 0x61)) = Inl ValueError"
proof -
  have "utf8_encode [0xE9] = Inr [0xC3, 0xA9]"
    by (simp add: utf8_char_def and_then_def)
  moreover from this have "snd (create_input_script [0xE9]) =
        Inr [0x04, 0xff, 0xff, 0x00, 0x1d, 0x01, 0x04, 0x01, 0xC3, 0xA9]"
    using create_input_script_code_points [of "[0xE9]" "[0xC3, 0xA9]"] by simp
  moreover have "specified_input_script [0xC3, 0xA9] =
        [0x04, 0xff, 0xff, 0x00, 0x1d, 0x01, 0x04, 0x02, 0xC3, 0xA9]"
    by (simp add: specified_input_script_def)
  ultimately show ?thesis
    using create_input_script_256 by simp
qed

text \<open>
  C2, amended.  For every timestamp of ASCII characters only, at most 255 of them, the
  input script is the 7-byte prefix \<open>04 ff ff 00 1d 01 04\<close>, then the marker \<open>4c\<close> if and
  only if the UTF-8 encoding of the timestamp exceeds 76 bytes, then one length byte equal
  to the number of UTF-8 bytes, then the UTF-8 bytes.
\<close>

theorem create_input_script_ascii:
  assumes "list_all (\<lambda>c. c < 128) psz_timestamp" and "length psz_timestamp \<le> 255"
  shows "\<exists>encoded. utf8_encode psz_timestamp = Inr encoded
           \<and> snd (create_input_script psz_timestamp) = Inr (specified_input_script encoded)
           \<and> specified_input_script encoded =
                [0x04, 0xff, 0xff, 0x00, 0x1d, 0x01, 0x04]
                @ (if length encoded > 76 then [0x4c] else [])
                @ [of_nat (length encoded)] @ encoded"
proof -
  let ?enc = "map of_nat psz_timestamp :: bytes"
  have e: "utf8_encode psz_timestamp = Inr ?enc"
    using assms(1) by (intro utf8_encode_ascii) (simp add: list_all_iff)
  have m: "length ?enc mod 256 = length ?enc"
    using assms(2) by simp
  have "snd (create_input_script psz_timestamp) = Inr (specified_input_script ?enc)"
    unfolding create_input_script_code_points [OF e assms(2)] specified_input_script_def m
    by simp
  with e m show ?thesis
    by (auto simp: specified_input_script_def)
qed

theorem create_input_script_ascii_witness:
  "list_all (\<lambda>c. c < 128) default_timestamp \<and> length default_timestamp \<le> 255
   \<and> snd (create_input_script default_timestamp) =
       Inr [0x04, 0xff, 0xff, 0x00, 0x1d, 0x01, 0x04, 0x45,
            0x54, 0x68, 0x65, 0x20, 0x54, 0x69, 0x6d, 0x65, 0x73, 0x20, 0x30, 0x33, 0x2f,
            0x4a, 0x61, 0x6e, 0x2f, 0x32, 0x30, 0x30, 0x39, 0x20, 0x43, 0x68, 0x61, 0x6e,
            0x63, 0x65, 0x6c, 0x6c, 0x6f, 0x72, 0x20, 0x6f, 0x6e, 0x20, 0x62, 0x72, 0x69,
            0x6e, 0x6b, 0x20, 0x6f, 0x66, 0x20, 0x73, 0x65, 0x63, 0x6f, 0x6e, 0x64, 0x20,
            0x62, 0x61, 0x69, 0x6c, 0x6f, 0x75, 0x74, 0x20, 0x66, 0x6f, 0x72, 0x20, 0x62,
            0x61, 0x6e, 0x6b, 0x73]"
proof -
  have a: "list_all (\<lambda>c. c < 128) default_timestamp"
    by (simp add: default_timestamp_def)
  have l: "length default_timestamp \<le> 255"
    by (simp add: default_timestamp_def)
  have e: "utf8_encode default_timestamp = Inr (map of_nat default_timestamp)"
    using a by (intro utf8_encode_ascii) (simp add: list_all_iff)
  show ?thesis
    using create_input_script_ascii [OF a l] a l
    by (simp add: e) (simp add: default_timestamp_def specified_input_script_def)
qed

subsection \<open>The coinbase transaction\<close>

text \<open>
  C7, as the claim states it, fails: the length of the input script is written as a single
  \<open>Byte\<close>, which refuses a script of 256 bytes, so no transaction is built.
\<close>

theorem create_transaction_long_script:
  "create_transaction (replicate 256 0) (replicate 67 0) 5000000000 = Inl FieldError"
  by (simp add: create_transaction_def pack_I_1 pack_qqqq_0 pack_q_def le_bytes_8
      build_UBInt32_max build_UBInt32_0 build_Byte_def build_Bytes_def and_then_def)

text \<open>
  C7, amended.  For every input script \<open>S\<close> of at most 255 bytes, every 67-byte output
  script \<open>O\<close> and every value in signed 64-bit range, the transaction has
  \<open>127 + len(S)\<close> bytes: version 1 (four bytes, little-endian), input count 1, 32 zero
  bytes, outpoint index \<open>0xFFFFFFFF\<close>, one length byte, \<open>S\<close>, sequence \<open>0xFFFFFFFF\<close>,
  output count 1, the value in eight little-endian bytes, the length byte \<open>0x43\<close>, \<open>O\<close>,
  and locktime 0.
\<close>

theorem create_transaction_layout:
  assumes "length input_script \<le> 255" and "length output_script = 67"
    and "- (2 ^ 63) \<le> val" and "val < 2 ^ 63"
  shows "\<exists>tx. create_transaction input_script output_script val = Inr tx
           \<and> length tx = 127 + length input_script
           \<and> tx = [1, 0, 0, 0] @ [1] @ replicate 32 0 @ [0xFF, 0xFF, 0xFF, 0xFF]
                @ [of_nat (length input_script)] @ input_script
                @ [0xFF, 0xFF, 0xFF, 0xFF] @ [1]
                @ [word_of_int val, word_of_int (val div 256), word_of_int (val div 65536),
                   word_of_int (val div 16777216), word_of_int (val div 4294967296),
                   word_of_int (val div 1099511627776),
                   word_of_int (val div 281474976710656),
                   word_of_int (val div 72057594037927936)]
                @ [0x43] @ output_script @ [0, 0, 0, 0]"
  using assms
  by (simp add: create_transaction_def pack_I_1 pack_qqqq_0 pack_q_def le_bytes_8
      build_UBInt32_max build_UBInt32_0 build_Byte_def build_Bytes_def and_then_def)

theorem create_transaction_layout_witness:
  "length (replicate 8 (4::byte)) \<le> 255 \<and> length (replicate 67 (9::byte)) = 67
   \<and> - (2 ^ 63) \<le> (5000000000::int) \<and> (5000000000::int) < 2 ^ 63
   \<and> create_transaction (replicate 8 4) (replicate 67 9) 5000000000 =
        Inr ([1, 0, 0, 0, 1] @ replicate 32 0 @ [0xFF, 0xFF, 0xFF, 0xFF, 8] @ replicate 8 4
             @ [0xFF, 0xFF, 0xFF, 0xFF, 1, 0x00, 0xF2, 0x05, 0x2A, 0x01, 0, 0, 0, 0x43]
             @ replicate 67 9 @ [0, 0, 0, 0])"
  using create_transaction_layout [of "replicate 8 4" "replicate 67 9" 5000000000]
  by simp

subsection \<open>The hash engine\<close>

lemma hex_digits_value_hex:
  "hex_digits_value acc (hex_of_bytes h) = Inr (foldl (\<lambda>a b. 256 * a + uint b) acc h)"
proof (induction h arbitrary: acc)
  case Nil
  show ?case by (simp add: hex_of_bytes_def)
next
  case (Cons b h)
  have d: "unat b div 16 < 16"
    using unsigned_less [of b, where ?'a = nat] by simp
  have m: "unat b mod 16 < 16" by simp
  have c: "hex_of_bytes (b # h) =
          hexdigit (unat b div 16) # hexdigit (unat b mod 16) # hex_of_bytes h"
    by (simp add: hex_of_bytes_def)
  have k: "16 * (16 * acc + int (unat b div 16)) + int (unat b mod 16) = 256 * acc + uint b"
  proof -
    have "int (unat b div 16) * 16 + int (unat b mod 16) = int (unat b)"
      by (simp add: zdiv_int zmod_int)
    then show ?thesis by (simp add: algebra_simps)
  qed
  have "hex_digits_value acc (hex_of_bytes (b # h)) =
          hex_digits_value (16 * (16 * acc + int (unat b div 16)) + int (unat b mod 16))
            (hex_of_bytes h)"
    unfolding c
    by (simp only: hex_digits_value.simps hexval_hexdigit [OF d] hexval_hexdigit [OF m]
        option.case)
  also have "\<dots> = Inr (foldl (\<lambda>a b. 256 * a + uint b) (256 * acc + uint b) h)"
    unfolding k by (rule Cons.IH)
  finally show ?case by simp
qed

lemma hex_of_bytes_empty: "hex_of_bytes h = [] \<longleftrightarrow> h = []"
  by (cases h) (simp_all add: hex_of_bytes_def)

lemma is_genesis_hash_value:
  "is_genesis_hash header_hash target =
     (if header_hash = [] then Inl ValueError
      else Inr (py_less (be_int header_hash) target))"
  by (simp add: is_genesis_hash_def int_base16_def hex_of_bytes_empty hex_digits_value_hex
      be_int_def and_then_def)

lemma pow_value_iff:
  "(\<exists>v. pow_value env alg blk = Some v \<and> py_less v t = b) \<longleftrightarrow>
   (\<exists>sha pow. generate_hashes_from_block env blk alg = Inr (sha, pow)
      \<and> is_genesis_hash pow t = Inr b)"
  by (auto simp: pow_value_def is_genesis_hash_value split: sum.splits if_splits)

lemma pow_value_below:
  "(\<exists>v. pow_value env alg blk = Some v \<and> py_less v t) \<longleftrightarrow>
   (\<exists>sha pow. generate_hashes_from_block env blk alg = Inr (sha, pow)
      \<and> is_genesis_hash pow t = Inr True)"
  using pow_value_iff [of env alg blk t True] by simp

lemma pow_value_not_below:
  "(\<exists>v. pow_value env alg blk = Some v \<and> \<not> py_less v t) \<longleftrightarrow>
   (\<exists>sha pow. generate_hashes_from_block env blk alg = Inr (sha, pow)
      \<and> is_genesis_hash pow t = Inr False)"
  using pow_value_iff [of env alg blk t False] by simp

lemma sha256d_first:
  "generate_hashes_from_block env blk alg = Inr (sha, pow)
     \<Longrightarrow> sha = rev (sha256 env (sha256 env blk))"
  by (auto simp: generate_hashes_from_block_def Let_def split: if_splits option.splits)

text \<open>
  C8.  For every block and every supported algorithm, the first digest that
  \<open>generate_hashes_from_block\<close> returns is the reversed double SHA-256 of the block,
  whichever algorithm is selected; it returns unless the algorithm is X11, X13 or X15 and
  its module cannot be imported, in which case it exits.  For SHA256 the proof-of-work
  digest is that same reversed double SHA-256.
\<close>

theorem generate_hashes_sha256d:
  assumes "algorithm \<in> set supported_algorithms"
  shows "(\<not> backend_missing env algorithm \<longrightarrow>
            (\<exists>header_hash. generate_hashes_from_block env data_block algorithm =
               Inr (rev (sha256 env (sha256 env data_block)), header_hash)))
         \<and> (backend_missing env algorithm \<longrightarrow>
            (\<exists>message. generate_hashes_from_block env data_block algorithm =
               Inl (SystemExit message)))
         \<and> generate_hashes_from_block env data_block ''SHA256'' =
             Inr (rev (sha256 env (sha256 env data_block)),
                  rev (sha256 env (sha256 env data_block)))"
  using assms
  by (auto simp: generate_hashes_from_block_def Let_def backend_missing_def
      supported_algorithms_def split: option.splits)

theorem generate_hashes_sha256d_witness:
  "''scrypt'' \<in> set supported_algorithms \<and> \<not> backend_missing stub_externals ''scrypt''
   \<and> stub_sha256 (stub_sha256 example_header) = replicate 32 0x11
   \<and> generate_hashes_from_block stub_externals example_header ''scrypt'' =
        Inr (replicate 32 0x11, replicate 32 0xFF)"
proof -
  have a: "''scrypt'' \<in> set supported_algorithms"
    by (simp add: supported_algorithms_def)
  have b: "\<not> backend_missing stub_externals ''scrypt''"
    by (simp add: backend_missing_def)
  have c: "generate_hashes_from_block stub_externals example_header ''scrypt'' =
        Inr (replicate 32 0x11, replicate 32 0xFF)"
    by code_simp
  from generate_hashes_sha256d [OF a, of stub_externals example_header] a b c
  show ?thesis
    by (simp add: stub_sha256_def)
qed

subsection \<open>The search\<close>

lemma block_at_start: "block_at d n n = d"
  by (simp add: block_at_def)

lemma block_at_step:
  "n < k \<Longrightarrow> block_at (take (length d - 4) d @ le_bytes 4 (n + 1)) (n + 1) k = block_at d n k"
  by (simp add: block_at_def length_le_bytes)

lemma pow_value_accepts:
  "generate_hashes_from_block env blk alg = Inr (sha, pow) \<Longrightarrow> is_genesis_hash pow t = Inr b
     \<Longrightarrow> pow_value env alg blk = Some (be_int pow) \<and> b = py_less (be_int pow) t"
  by (auto simp: pow_value_def is_genesis_hash_value split: if_splits)

lemma loop_found:
  "generate_hash_loop env d alg n t = Inr (h, m) \<Longrightarrow>
     n \<le> m
     \<and> (\<exists>sha pow. generate_hashes_from_block env (block_at d n m) alg = Inr (sha, pow)
           \<and> is_genesis_hash pow t = Inr True
           \<and> h = (if alg \<in> set [''X11'', ''X13'', ''X15''] then pow else sha))
     \<and> (\<forall>k. n \<le> k \<and> k < m \<longrightarrow>
           (\<exists>sha pow. generate_hashes_from_block env (block_at d n k) alg = Inr (sha, pow)
              \<and> is_genesis_hash pow t = Inr False))"
proof (induction env d alg n t rule: generate_hash_loop.induct)
  case (1 env d alg n t)
  from "1.prems" obtain sha pow where
    g: "generate_hashes_from_block env d alg = Inr (sha, pow)"
    by (subst (asm) generate_hash_loop.simps) (auto split: sum.splits)
  from "1.prems" g obtain found where f: "is_genesis_hash pow t = Inr found"
    by (subst (asm) generate_hash_loop.simps) (auto split: sum.splits)
  show ?case
  proof (cases found)
    case True
    with "1.prems" g f have "h = (if alg \<in> set [''X11'', ''X13'', ''X15''] then pow else sha)"
      and "m = n"
      by (subst (asm) generate_hash_loop.simps, auto split: if_splits)+
    with g f True show ?thesis
      by (auto simp: block_at_start)
  next
    case False
    with "1.prems" g f obtain packed where p: "pack_I (n + 1) = Inr packed"
      by (subst (asm) generate_hash_loop.simps) (auto split: sum.splits)
    then have pk: "packed = le_bytes 4 (n + 1)"
      by (auto simp: pack_I_def split: if_splits)
    let ?d = "take (length d - 4) d @ le_bytes 4 (n + 1)"
    from "1.prems" g f False p pk have r: "generate_hash_loop env ?d alg (n + 1) t = Inr (h, m)"
      by (subst (asm) generate_hash_loop.simps) simp
    have ih: "n + 1 \<le> m
      \<and> (\<exists>sha pow. generate_hashes_from_block env (block_at ?d (n + 1) m) alg = Inr (sha, pow)
           \<and> is_genesis_hash pow t = Inr True
           \<and> h = (if alg \<in> set [''X11'', ''X13'', ''X15''] then pow else sha))
      \<and> (\<forall>k. n + 1 \<le> k \<and> k < m \<longrightarrow>
           (\<exists>sha pow. generate_hashes_from_block env (block_at ?d (n + 1) k) alg = Inr (sha, pow)
              \<and> is_genesis_hash pow t = Inr False))"
      using "1.IH" [OF g refl f False p] r pk by simp
    have b: "\<And>k. n < k \<Longrightarrow> block_at ?d (n + 1) k = block_at d n k"
      by (rule block_at_step)
    from ih have nm: "n < m" by simp
    have "\<And>k. n \<le> k \<and> k < m \<Longrightarrow>
           (\<exists>sha pow. generate_hashes_from_block env (block_at d n k) alg = Inr (sha, pow)
              \<and> is_genesis_hash pow t = Inr False)"
    proof -
      fix k assume k: "n \<le> k \<and> k < m"
      show "\<exists>sha pow. generate_hashes_from_block env (block_at d n k) alg = Inr (sha, pow)
              \<and> is_genesis_hash pow t = Inr False"
      proof (cases "k = n")
        case True
        with g f False show ?thesis by (auto simp: block_at_start)
      next
        case False
        with k have "n < k" and "n + 1 \<le> k \<and> k < m" by simp_all
        with ih b [of k] show ?thesis by auto
      qed
    qed
    with ih b [OF nm] nm show ?thesis by auto
  qed
qed

lemma loop_exhausted:
  "0 \<le> n \<Longrightarrow> n < 2 ^ 32 \<Longrightarrow>
   (\<forall>k. n \<le> k \<and> k < 2 ^ 32 \<longrightarrow>
      (\<exists>sha pow. generate_hashes_from_block env (block_at d n k) alg = Inr (sha, pow)
         \<and> is_genesis_hash pow t = Inr False)) \<Longrightarrow>
   generate_hash_loop env d alg n t = Inl StructError"
proof (induction env d alg n t rule: generate_hash_loop.induct)
  case (1 env d alg n t)
  from "1.prems" obtain sha pow where
    g: "generate_hashes_from_block env d alg = Inr (sha, pow)"
    and f: "is_genesis_hash pow t = Inr False"
    using block_at_start [of d n] by (metis order_refl)
  show ?case
  proof (cases "n + 1 < 2 ^ 32")
    case False
    then have "pack_I (n + 1) = Inl StructError" by (simp add: pack_I_def)
    with g f show ?thesis
      by (subst generate_hash_loop.simps) simp
  next
    case True
    with "1.prems"(1) have p: "pack_I (n + 1) = Inr (le_bytes 4 (n + 1))"
      by (simp add: pack_I_def)
    let ?d = "take (length d - 4) d @ le_bytes 4 (n + 1)"
    have "\<forall>k. n + 1 \<le> k \<and> k < 2 ^ 32 \<longrightarrow>
      (\<exists>sha pow. generate_hashes_from_block env (block_at ?d (n + 1) k) alg = Inr (sha, pow)
         \<and> is_genesis_hash pow t = Inr False)"
      using "1.prems"(3) by (simp add: block_at_step)
    with "1.prems"(1) True have "generate_hash_loop env ?d alg (n + 1) t = Inl StructError"
      by (intro "1.IH" [OF g refl f _ p]) simp_all
    with g f p show ?thesis
      by (subst generate_hash_loop.simps) simp
  qed
qed

text \<open>
  C1, as the claim states it, fails for scrypt: the search returns the proof-of-work
  digest only for X11, X13 and X15 (line 148), and the double SHA-256 digest for scrypt as
  for SHA256.  Here the scrypt digest of the winning block is all zeros, and the digest
  returned is the other one.
\<close>

theorem generate_hash_scrypt_digest:
  "snd (generate_hash stub_externals example_header ''scrypt'' 0 0x1d00ffff) =
     Inr (replicate 32 0x11, 2)
   \<and> generate_hashes_from_block stub_externals (block_at example_header 0 2) ''scrypt'' =
       Inr (replicate 32 0x11, replicate 32 0)
   \<and> replicate 32 (0x11 :: byte) \<noteq> replicate 32 0"
  by code_simp

text \<open>
  C1, amended.  For every supported algorithm, when the search succeeds it returns
  \<open>(winning_digest, nonce)\<close>, where \<open>winning_digest\<close> is the proof-of-work digest of the
  winning block for X11, X13 and X15, and its reversed double SHA-256 digest for SHA256 and
  for scrypt.
\<close>

theorem generate_hash_winning_digest:
  assumes "algorithm \<in> set supported_algorithms"
    and "snd (generate_hash env data_block algorithm start_nonce bits) = Inr (genesis_hash, n)"
  shows "\<exists>sha256_hash header_hash.
           generate_hashes_from_block env (block_at data_block start_nonce n) algorithm =
             Inr (sha256_hash, header_hash)
           \<and> sha256_hash = rev (sha256 env (sha256 env (block_at data_block start_nonce n)))
           \<and> (algorithm \<in> set [''X11'', ''X13'', ''X15''] \<longrightarrow> genesis_hash = header_hash)
           \<and> (algorithm \<in> set [''SHA256'', ''scrypt''] \<longrightarrow> genesis_hash = sha256_hash)"
proof -
  from assms(2) have "generate_hash_loop env data_block algorithm start_nonce (decode_bits bits)
      = Inr (genesis_hash, n)"
    by (simp add: generate_hash_def)
  from loop_found [OF this] obtain sha pow where
    g: "generate_hashes_from_block env (block_at data_block start_nonce n) algorithm =
          Inr (sha, pow)"
    and h: "genesis_hash = (if algorithm \<in> set [''X11'', ''X13'', ''X15''] then pow else sha)"
    by blast
  from sha256d_first [OF g] g h show ?thesis
    by auto
qed

theorem generate_hash_winning_digest_witness:
  "''X11'' \<in> set supported_algorithms
   \<and> snd (generate_hash with_xcoin example_header ''X11'' 0 0x1e0ffff0) = Inr (replicate 32 0, 0)
   \<and> generate_hashes_from_block with_xcoin (block_at example_header 0 0) ''X11'' =
        Inr (replicate 32 0x11, replicate 32 0)
   \<and> ''scrypt'' \<in> set supported_algorithms
   \<and> snd (generate_hash stub_externals example_header ''scrypt'' 0 0x1d00ffff) =
        Inr (replicate 32 0x11, 2)
   \<and> generate_hashes_from_block stub_externals (block_at example_header 0 2) ''scrypt'' =
        Inr (replicate 32 0x11, replicate 32 0)"
proof -
  have a: "''X11'' \<in> set supported_algorithms" and b: "''scrypt'' \<in> set supported_algorithms"
    by (simp_all add: supported_algorithms_def)
  have c: "snd (generate_hash with_xcoin example_header ''X11'' 0 0x1e0ffff0) =
             Inr (replicate 32 0, 0)"
    by code_simp
  have d: "snd (generate_hash stub_externals example_header ''scrypt'' 0 0x1d00ffff) =
             Inr (replicate 32 0x11, 2)"
    by code_simp
  have e: "generate_hashes_from_block with_xcoin (block_at example_header 0 0) ''X11'' =
        Inr (replicate 32 0x11, replicate 32 0)"
    by code_simp
  have f: "generate_hashes_from_block stub_externals (block_at example_header 0 2) ''scrypt'' =
        Inr (replicate 32 0x11, replicate 32 0)"
    by code_simp
  from generate_hash_winning_digest [OF a c] generate_hash_winning_digest [OF b d] a b c d e f
  show ?thesis by simp
qed

lemma block_at_set_nonce:
  "m \<noteq> s \<Longrightarrow> 0 \<le> m \<Longrightarrow> m < 2 ^ 32 \<Longrightarrow> set_nonce d m = Inr (block_at d s m)"
  by (simp add: set_nonce_def block_at_def pack_I_def and_then_def)

lemma block_at_created:
  assumes "create_block_header r t b s = Inr d" and "0 \<le> m" and "m < 2 ^ 32"
  shows "create_block_header r t b m = Inr (block_at d s m)"
proof (cases "m = s")
  case True
  with assms(1) show ?thesis by (simp add: block_at_def)
next
  case False
  from assms show ?thesis
    by (auto simp: create_block_header_def pack_I_1 pack_qqqq_0 pack_I_def le_bytes_4
        and_then_def build_Bytes_def block_at_def split: if_splits)
qed

text \<open>
  C4.  When the search returns the nonce \<open>n\<close>, the proof-of-work digest of the block
  hashed at \<open>n\<close>, read as an unsigned integer with the most significant byte first, is
  strictly below the decoded target, \<open>n\<close> is at least the start nonce, and every nonce
  from the start nonce up to \<open>n\<close> was tried and has a digest that is not below the target:
  \<open>n\<close> is the least such nonce.  The block hashed at a nonce is \<open>block_at\<close>; for a header
  that carries the start nonce, as \<open>main\<close> builds it, this is the header with the nonce in
  its last four bytes.
\<close>

theorem generate_hash_least_nonce:
  assumes "snd (generate_hash env data_block algorithm start_nonce bits) = Inr (genesis_hash, n)"
  shows "start_nonce \<le> n
         \<and> (\<exists>v. pow_value env algorithm (block_at data_block start_nonce n) = Some v
               \<and> py_less v (decode_bits bits))
         \<and> (\<forall>m. start_nonce \<le> m \<and> m < n \<longrightarrow>
               (\<exists>v. pow_value env algorithm (block_at data_block start_nonce m) = Some v
                  \<and> \<not> py_less v (decode_bits bits)))"
proof -
  from assms have "generate_hash_loop env data_block algorithm start_nonce (decode_bits bits)
      = Inr (genesis_hash, n)"
    by (simp add: generate_hash_def)
  from loop_found [OF this] have a: "start_nonce \<le> n"
    and b: "\<exists>sha pow. generate_hashes_from_block env (block_at data_block start_nonce n)
              algorithm = Inr (sha, pow) \<and> is_genesis_hash pow (decode_bits bits) = Inr True"
    and c: "\<forall>k. start_nonce \<le> k \<and> k < n \<longrightarrow>
           (\<exists>sha pow. generate_hashes_from_block env (block_at data_block start_nonce k)
              algorithm = Inr (sha, pow) \<and> is_genesis_hash pow (decode_bits bits) = Inr False)"
    by blast+
  from b have b': "\<exists>v. pow_value env algorithm (block_at data_block start_nonce n) = Some v
               \<and> py_less v (decode_bits bits)"
    by (simp only: pow_value_below)
  from c have c': "\<forall>m. start_nonce \<le> m \<and> m < n \<longrightarrow>
               (\<exists>v. pow_value env algorithm (block_at data_block start_nonce m) = Some v
                  \<and> \<not> py_less v (decode_bits bits))"
    by (simp only: pow_value_not_below)
  from a b' c' show ?thesis by simp
qed

theorem generate_hash_least_nonce_witness:
  "snd (generate_hash stub_externals example_header ''scrypt'' 0 0x1d00ffff) =
     Inr (replicate 32 0x11, 2)
   \<and> pow_value stub_externals ''scrypt'' (block_at example_header 0 2) = Some 0
   \<and> py_less 0 (decode_bits 0x1d00ffff)
   \<and> pow_value stub_externals ''scrypt'' (block_at example_header 0 0) = Some (2 ^ 256 - 1)
   \<and> pow_value stub_externals ''scrypt'' (block_at example_header 0 1) = Some (2 ^ 256 - 1)
   \<and> \<not> py_less (2 ^ 256 - 1) (decode_bits 0x1d00ffff)"
proof -
  have d: "snd (generate_hash stub_externals example_header ''scrypt'' 0 0x1d00ffff) =
             Inr (replicate 32 0x11, 2)"
    by code_simp
  have e: "pow_value stub_externals ''scrypt'' (block_at example_header 0 2) = Some 0
   \<and> py_less 0 (decode_bits 0x1d00ffff)
   \<and> pow_value stub_externals ''scrypt'' (block_at example_header 0 0) = Some (2 ^ 256 - 1)
   \<and> pow_value stub_externals ''scrypt'' (block_at example_header 0 1) = Some (2 ^ 256 - 1)
   \<and> \<not> py_less (2 ^ 256 - 1) (decode_bits 0x1d00ffff)"
    by code_simp
  from generate_hash_least_nonce [OF d] d e show ?thesis by simp
qed

text \<open>
  C10.  The nonce never wraps: if the start nonce is a 32-bit value and no nonce from it
  up to \<open>2^32 - 1\<close> has a digest below the target, the search ends with the
  \<open>struct.error\<close> that packing \<open>2^32\<close> raises.
\<close>

theorem generate_hash_nonce_exhausted:
  assumes "0 \<le> start_nonce" and "start_nonce < 2 ^ 32"
    and "\<forall>k. start_nonce \<le> k \<and> k < 2 ^ 32 \<longrightarrow>
           (\<exists>v. pow_value env algorithm (block_at data_block start_nonce k) = Some v
              \<and> \<not> py_less v (decode_bits bits))"
  shows "snd (generate_hash env data_block algorithm start_nonce bits) = Inl StructError
         \<and> pack_I (2 ^ 32) = Inl StructError"
proof -
  from assms(3) have "\<forall>k. start_nonce \<le> k \<and> k < 2 ^ 32 \<longrightarrow>
      (\<exists>sha pow. generate_hashes_from_block env (block_at data_block start_nonce k) algorithm
          = Inr (sha, pow) \<and> is_genesis_hash pow (decode_bits bits) = Inr False)"
    by (simp only: pow_value_not_below)
  from loop_exhausted [OF assms(1,2) this] show ?thesis
    by (simp add: generate_hash_def pack_I_def)
qed

theorem generate_hash_nonce_exhausted_witness:
  "(0::int) \<le> 4294967294 \<and> (4294967294::int) < 2 ^ 32
   \<and> pow_value stub_externals ''scrypt'' (block_at example_header 4294967294 4294967294)
        = Some (2 ^ 256 - 1)
   \<and> pow_value stub_externals ''scrypt'' (block_at example_header 4294967294 4294967295)
        = Some (2 ^ 256 - 1)
   \<and> \<not> py_less (2 ^ 256 - 1) (decode_bits 0x1d00ffff)
   \<and> snd (generate_hash stub_externals example_header ''scrypt'' 4294967294 0x1d00ffff)
        = Inl StructError"
proof -
  have e: "pow_value stub_externals ''scrypt'' (block_at example_header 4294967294 4294967294)
        = Some (2 ^ 256 - 1)
   \<and> pow_value stub_externals ''scrypt'' (block_at example_header 4294967294 4294967295)
        = Some (2 ^ 256 - 1)
   \<and> \<not> py_less (2 ^ 256 - 1) (decode_bits 0x1d00ffff)"
    by code_simp
  have "\<forall>k::int. 4294967294 \<le> k \<and> k < 2 ^ 32 \<longrightarrow>
           (\<exists>v. pow_value stub_externals ''scrypt'' (block_at example_header 4294967294 k) = Some v
              \<and> \<not> py_less v (decode_bits 0x1d00ffff))"
  proof (intro allI impI)
    fix k :: int assume "4294967294 \<le> k \<and> k < 2 ^ 32"
    then have "k = 4294967294 \<or> k = 4294967295" by auto
    with e show "\<exists>v. pow_value stub_externals ''scrypt'' (block_at example_header 4294967294 k)
        = Some v \<and> \<not> py_less v (decode_bits 0x1d00ffff)"
      by auto
  qed
  from generate_hash_nonce_exhausted [OF _ _ this] e show ?thesis by simp
qed

subsection \<open>The program\<close>

lemma io_then_error: "snd m = Inl e \<Longrightarrow> io_then m f = (fst m, Inl e)"
  by (simp add: io_then_def)

lemma io_then_value: "snd m = Inr x \<Longrightarrow> io_then m f = (fst m @ fst (f x), snd (f x))"
  by (simp add: io_then_def)

lemma main_unsupported:
  "opt_algorithm opts \<notin> set supported_algorithms \<Longrightarrow>
     main env opts = ([], Inl (SystemExit
        ''Error: Given algorithm must be one of: ['SHA256', 'scrypt', 'X11', 'X13', 'X15']''))"
  by (simp add: main_def get_algorithm_def no_output_def io_then_def)

lemma generate_hash_missing:
  assumes "backend_missing env algorithm"
  shows "\<exists>message. generate_hash env data_block algorithm start_nonce bits =
       ([Line ''Searching for genesis hash..''], Inl (SystemExit message))
     \<and> generate_hashes_from_block env data_block algorithm = Inl (SystemExit message)"
proof -
  from assms obtain message where
    g: "generate_hashes_from_block env data_block algorithm = Inl (SystemExit message)"
    by (auto simp: backend_missing_def generate_hashes_from_block_def)
  then have "generate_hash_loop env data_block algorithm start_nonce (decode_bits bits) =
      Inl (SystemExit message)"
    by (subst generate_hash_loop.simps) simp
  with g show ?thesis
    by (simp add: generate_hash_def)
qed

lemma io_then_never:
  "(\<And>x. \<exists>e. snd (f x) = Inl e) \<Longrightarrow> \<exists>e. snd (io_then m f) = Inl e"
  by (cases "snd m") (simp_all add: io_then_def)

lemma get_algorithm_missing:
  "backend_missing env (opt_algorithm opts) \<Longrightarrow> get_algorithm opts = Inr (opt_algorithm opts)"
  by (auto simp: backend_missing_def get_algorithm_def supported_algorithms_def)

lemma io_then_no_output: "io_then (no_output (Inr x)) f = f x"
  by (simp add: io_then_def no_output_def)

lemma main_missing_exits:
  assumes "backend_missing env (opt_algorithm opts)"
  shows "\<exists>e. snd (main env opts) = Inl e"
proof -
  have g: "\<And>d. \<exists>e. snd (io_then (generate_hash env d (opt_algorithm opts) (opt_nonce opts)
              (opt_bits opts)) (\<lambda>(genesis_hash, nonce). announce_found_genesis genesis_hash nonce))
            = Inl e"
  proof -
    fix d
    from generate_hash_missing [OF assms, of d "opt_nonce opts" "opt_bits opts"]
    obtain message where "snd (generate_hash env d (opt_algorithm opts) (opt_nonce opts)
        (opt_bits opts)) = Inl (SystemExit message)"
      by auto
    then show "\<exists>e. snd (io_then (generate_hash env d (opt_algorithm opts) (opt_nonce opts)
              (opt_bits opts)) (\<lambda>(genesis_hash, nonce). announce_found_genesis genesis_hash nonce))
            = Inl e"
      by (simp add: io_then_def)
  qed
  show ?thesis
    unfolding main_def get_algorithm_missing [OF assms] Let_def io_then_no_output
    apply (rule io_then_never)
    apply (rule io_then_never)
    apply (rule io_then_never)
    apply (rule io_then_never)
    apply (rule io_then_never)
    apply (rule g)
    done
qed

lemma create_input_script_printed:
  "snd (create_input_script ts) = Inr x \<Longrightarrow> \<exists>h. fst (create_input_script ts) = [Line h]"
  by (auto simp: create_input_script_def Let_def split: sum.splits)

lemma main_missing_output:
  assumes "backend_missing env (opt_algorithm opts)"
    and "snd (create_input_script (opt_timestamp opts)) = Inr input_script"
    and "create_output_script (opt_pubkey opts) = Inr output_script"
    and "create_transaction input_script output_script (opt_value opts) = Inr tx"
    and "create_block_header (sha256 env (sha256 env tx)) (opt_time opts) (opt_bits opts)
           (opt_nonce opts) = Inr block_header"
  shows "\<exists>script_hex message.
           generate_hashes_from_block env block_header (opt_algorithm opts) =
             Inl (SystemExit message)
           \<and> main env opts =
               ([Line script_hex,
                 Block_info (opt_algorithm opts) (rev (sha256 env (sha256 env tx)))
                   (opt_timestamp opts) (opt_pubkey opts) (opt_time opts) (opt_bits opts),
                 Line ''Searching for genesis hash..''],
                Inl (SystemExit message))"
proof -
  from create_input_script_printed [OF assms(2)] obtain h where
    h: "fst (create_input_script (opt_timestamp opts)) = [Line h]" by blast
  from generate_hash_missing [OF assms(1), of block_header "opt_nonce opts" "opt_bits opts"]
  obtain message where
    m: "generate_hash env block_header (opt_algorithm opts) (opt_nonce opts) (opt_bits opts) =
          ([Line ''Searching for genesis hash..''], Inl (SystemExit message))"
    and n: "generate_hashes_from_block env block_header (opt_algorithm opts) =
          Inl (SystemExit message)"
    by blast
  have "main env opts =
               ([Line h,
                 Block_info (opt_algorithm opts) (rev (sha256 env (sha256 env tx)))
                   (opt_timestamp opts) (opt_pubkey opts) (opt_time opts) (opt_bits opts),
                 Line ''Searching for genesis hash..''],
                Inl (SystemExit message))"
    unfolding main_def get_algorithm_missing [OF assms(1)] Let_def io_then_no_output
    by (simp add: io_then_def no_output_def assms(2-5) h m print_block_info_def)
  with n show ?thesis by blast
qed

text \<open>
  C3, as the claim states it, fails for a missing module.  With X11 selected and no
  \<open>xcoin_hash\<close> module, the program has printed the input script, the block information
  and the line that announces the search before it exits: the import is attempted inside
  \<open>generate_hashes_from_block\<close>, which the search loop calls in its first iteration.
\<close>

theorem main_missing_backend_output:
  "backend_missing stub_externals (opt_algorithm example_options)
   \<and> main stub_externals example_options =
     ([Line ''04ffff001d0104455468652054696d65732030332f4a616e2f32303039204368616e63656c6c6f72206f6e206272696e6b206f66207365636f6e64206261696c6f757420666f722062616e6b73'',
       Block_info ''X11'' (replicate 32 0x11) default_timestamp default_pubkey 1231006505
         0x1e0ffff0,
       Line ''Searching for genesis hash..''],
      Inl (SystemExit ''Cannot run X11 algorithm: module xcoin_hash not found''))"
  by code_simp

text \<open>
  C3, amended.  For every configuration with an unsupported algorithm name, the program
  exits with a non-zero status before anything is built, searched or printed.  For every
  configuration selecting X11, X13 or X15 whose module is absent, the program exits with
  a non-zero status without reporting a genesis hash; the missing module is detected by
  the import inside \<open>generate_hashes_from_block\<close>, in the first iteration of the search
  loop, and when the scripts, the transaction and the header have been built, the input
  script, the block information and the line announcing the search are printed before
  the exit.
\<close>

theorem main_configuration_errors:
  "(opt_algorithm opts \<notin> set supported_algorithms \<longrightarrow>
      main env opts = ([], Inl (SystemExit
        ''Error: Given algorithm must be one of: ['SHA256', 'scrypt', 'X11', 'X13', 'X15']''))
      \<and> exit_status (snd (main env opts)) = 1)
   \<and> (backend_missing env (opt_algorithm opts) \<longrightarrow>
        exit_status (snd (main env opts)) = 1
        \<and> (\<forall>input_script output_script tx block_header.
              snd (create_input_script (opt_timestamp opts)) = Inr input_script
              \<and> create_output_script (opt_pubkey opts) = Inr output_script
              \<and> create_transaction input_script output_script (opt_value opts) = Inr tx
              \<and> create_block_header (sha256 env (sha256 env tx)) (opt_time opts) (opt_bits opts)
                   (opt_nonce opts) = Inr block_header
              \<longrightarrow> (\<exists>script_hex message.
                     generate_hashes_from_block env block_header (opt_algorithm opts) =
                       Inl (SystemExit message)
                     \<and> main env opts =
                         ([Line script_hex,
                           Block_info (opt_algorithm opts) (rev (sha256 env (sha256 env tx)))
                             (opt_timestamp opts) (opt_pubkey opts) (opt_time opts)
                             (opt_bits opts),
                           Line ''Searching for genesis hash..''],
                          Inl (SystemExit message)))))"
proof (intro conjI impI allI)
  assume u: "opt_algorithm opts \<notin> set supported_algorithms"
  from main_unsupported [OF u]
  show "main env opts = ([], Inl (SystemExit
        ''Error: Given algorithm must be one of: ['SHA256', 'scrypt', 'X11', 'X13', 'X15']''))"
    .
  then show "exit_status (snd (main env opts)) = 1"
    by (simp add: exit_status_def)
next
  assume b: "backend_missing env (opt_algorithm opts)"
  from main_missing_exits [OF b] show "exit_status (snd (main env opts)) = 1"
    by (auto simp: exit_status_def)
next
  fix input_script output_script tx block_header
  assume b: "backend_missing env (opt_algorithm opts)"
    and c: "snd (create_input_script (opt_timestamp opts)) = Inr input_script
              \<and> create_output_script (opt_pubkey opts) = Inr output_script
              \<and> create_transaction input_script output_script (opt_value opts) = Inr tx
              \<and> create_block_header (sha256 env (sha256 env tx)) (opt_time opts) (opt_bits opts)
                   (opt_nonce opts) = Inr block_header"
  from c main_missing_output [OF b, of input_script output_script tx block_header]
  show "\<exists>script_hex message.
                     generate_hashes_from_block env block_header (opt_algorithm opts) =
                       Inl (SystemExit message)
                     \<and> main env opts =
                         ([Line script_hex,
                           Block_info (opt_algorithm opts) (rev (sha256 env (sha256 env tx)))
                             (opt_timestamp opts) (opt_pubkey opts) (opt_time opts)
                             (opt_bits opts),
                           Line ''Searching for genesis hash..''],
                          Inl (SystemExit message))"
    by blast
qed

theorem main_configuration_errors_witness:
  "opt_algorithm (example_options\<lparr>opt_algorithm := ''MD5''\<rparr>) \<notin> set supported_algorithms
   \<and> main stub_externals (example_options\<lparr>opt_algorithm := ''MD5''\<rparr>) =
       ([], Inl (SystemExit
        ''Error: Given algorithm must be one of: ['SHA256', 'scrypt', 'X11', 'X13', 'X15']''))
   \<and> backend_missing stub_externals (opt_algorithm example_options)
   \<and> exit_status (snd (main stub_externals example_options)) = 1"
proof -
  have u: "opt_algorithm (example_options\<lparr>opt_algorithm := ''MD5''\<rparr>)
             \<notin> set supported_algorithms"
    by (simp add: supported_algorithms_def)
  have b: "backend_missing stub_externals (opt_algorithm example_options)"
    by (simp add: backend_missing_def example_options_def stub_externals_def)
  from main_configuration_errors [of "example_options\<lparr>opt_algorithm := ''MD5''\<rparr>" stub_externals]
    main_configuration_errors [of example_options stub_externals] u b
  show ?thesis by blast
qed

end
